theory Spec2Isabelle
  imports Main
begin

section \<open>Strings and tables\<close>

text \<open>
  A JavaScript string is a sequence of UTF-16 code units. It is modelled as a \<open>string\<close>;
  a \<open>char\<close> stands for a code unit below 256. A table is what \<open>parseCSV\<close> returns:
  an array of rows, each an array of cells.
\<close>

type_synonym row = "string list"
type_synonym table = "row list"

abbreviation QUOTE :: char where "QUOTE \<equiv> CHR 0x22"
abbreviation COMMA :: char where "COMMA \<equiv> CHR 0x2C"
abbreviation LF :: char where "LF \<equiv> CHR 0x0A"
abbreviation CR :: char where "CR \<equiv> CHR 0x0D"

section \<open>parseCSV\<close>

text \<open>
  The four local variables of \<open>parseCSV\<close>. The loop index \<open>i\<close> is the position in the
  text; the model carries the text from position \<open>i\<close> on instead.
\<close>

record parser =
  lines :: table
  currentLine :: row
  currentField :: string
  inQuotes :: bool

text \<open>\<open>text[i + 1]\<close>: the character after the current one, \<open>undefined\<close> at the end.\<close>

fun nextChar_of :: "string \<Rightarrow> char option" where
  "nextChar_of [] = None"
| "nextChar_of (d # rest) = Some d"

text \<open>
  The block at a row boundary: the row is pushed when the pending field is a non-empty
  string or a field was already pushed, and both are reset then.
\<close>

definition endRow :: "parser \<Rightarrow> parser" where
  "endRow st =
     (if currentField st \<noteq> [] \<or> length (currentLine st) > 0
      then st\<lparr>lines := lines st @ [currentLine st @ [currentField st]],
              currentLine := [], currentField := []\<rparr>
      else st)"

text \<open>
  The body of the \<open>for\<close> loop on \<open>char\<close> and \<open>nextChar\<close>. The result is the new
  state, and whether the body incremented \<open>i\<close> (the next character is skipped).
\<close>

definition iteration :: "char \<Rightarrow> char option \<Rightarrow> parser \<Rightarrow> parser \<times> bool" where
  "iteration char nextChar st =
     (if char = QUOTE then
        (if inQuotes st \<and> nextChar = Some QUOTE
         then (st\<lparr>currentField := currentField st @ [QUOTE]\<rparr>, True)
         else (st\<lparr>inQuotes := \<not> inQuotes st\<rparr>, False))
      else if char = COMMA \<and> \<not> inQuotes st then
        (st\<lparr>currentLine := currentLine st @ [currentField st], currentField := []\<rparr>, False)
      else if (char = LF \<or> char = CR) \<and> \<not> inQuotes st then
        (endRow st, char = CR \<and> nextChar = Some LF)
      else (st\<lparr>currentField := currentField st @ [char]\<rparr>, False))"

text \<open>The loop, from position \<open>i\<close> on: \<open>char # rest\<close> is the text left.\<close>

fun scan :: "string \<Rightarrow> parser \<Rightarrow> parser" where
  "scan [] st = st"
| "scan (char # rest) st =
     (let (st', skip) = iteration char (nextChar_of rest) st
      in scan (if skip then tl rest else rest) st')"

text \<open>The block after the loop: the last field and line are pushed if they exist.\<close>

definition finish :: "parser \<Rightarrow> table" where
  "finish st =
     (if currentField st \<noteq> [] \<or> length (currentLine st) > 0
      then lines st @ [currentLine st @ [currentField st]]
      else lines st)"

definition start :: parser where
  "start = \<lparr>lines = [], currentLine = [], currentField = [], inQuotes = False\<rparr>"

definition parseCSV :: "string \<Rightarrow> table" where
  "parseCSV text = finish (scan text start)"


section \<open>String builtins\<close>

text \<open>
  \<open>String.prototype.trim\<close> removes the white space and line terminator code units
  from both ends. Below 256 these are TAB, LF, VT, FF, CR, SP and NBSP.
\<close>

definition isWhiteSpace :: "char \<Rightarrow> bool" where
  "isWhiteSpace c =
     (c = CHR 0x09 \<or> c = CHR 0x0A \<or> c = CHR 0x0B \<or> c = CHR 0x0C \<or> c = CHR 0x0D
      \<or> c = CHR 0x20 \<or> c = CHR 0xA0)"

definition trim :: "string \<Rightarrow> string" where
  "trim s = rev (dropWhile isWhiteSpace (rev (dropWhile isWhiteSpace s)))"

text \<open>
  \<open>String.prototype.toLowerCase\<close>: below 256 the letters with a lower-case form are
  A to Z and the code units 0xC0 to 0xDE other than the multiplication sign 0xD7; the
  lower-case form is 32 above.
\<close>

definition toLowerCase_char :: "char \<Rightarrow> char" where
  "toLowerCase_char c =
     (let n = (of_char c :: nat)
      in if (65 \<le> n \<and> n \<le> 90) \<or> (192 \<le> n \<and> n \<le> 222 \<and> n \<noteq> 215)
         then char_of (n + 32) else c)"

definition toLowerCase :: "string \<Rightarrow> string" where
  "toLowerCase s = map toLowerCase_char s"

text \<open>The decimal digits of an integer, as a template literal writes a number.\<close>

function digits :: "nat \<Rightarrow> string" where
  "digits n = (if n < 10 then [char_of (48 + n)] else digits (n div 10) @ [char_of (48 + n mod 10)])"
  by pat_completeness auto
termination
  by (relation "measure (\<lambda>n. n)") auto

declare digits.simps [simp del]

definition numberToString :: "int \<Rightarrow> string" where
  "numberToString i = (if i < 0 then CHR ''-'' # digits (nat (- i)) else digits (nat i))"

section \<open>findClinic\<close>

text \<open>
  The object \<open>clinic\<close> is modelled by its own properties. An assignment
  \<open>clinic[header] = v\<close> to an object created by \<open>{}\<close> creates or overwrites the own
  property \<open>header\<close>, with one exception: \<open>__proto__\<close> is an accessor of
  \<open>Object.prototype\<close>, whose setter ignores a value that is not an object, so assigning a
  string to it leaves the object as it was.
\<close>

type_synonym clinic = "string \<rightharpoonup> string"

definition assign :: "clinic \<Rightarrow> string \<Rightarrow> string \<Rightarrow> clinic" where
  "assign obj key v = (if key = ''__proto__'' then obj else obj(key \<mapsto> v))"

text \<open>\<open>row[index]\<close>: \<open>undefined\<close> (\<open>None\<close>) beyond the end of the row.\<close>

definition at_index :: "row \<Rightarrow> nat \<Rightarrow> string option" where
  "at_index row index = (if index < length row then Some (row ! index) else None)"

text \<open>\<open>v || ''\<close>: \<open>undefined\<close> and the empty string are falsy.\<close>

definition or_empty :: "string option \<Rightarrow> string" where
  "or_empty v = (case v of None \<Rightarrow> [] | Some s \<Rightarrow> (if s = [] then [] else s))"

text \<open>\<open>headers.findIndex(p)\<close>: the first index where \<open>p\<close> holds, \<open>None\<close> for \<open>-1\<close>.\<close>

fun findIndex :: "('a \<Rightarrow> bool) \<Rightarrow> 'a list \<Rightarrow> nat option" where
  "findIndex p [] = None"
| "findIndex p (x # xs) = (if p x then Some 0 else map_option Suc (findIndex p xs))"

text \<open>The callback of \<open>findIndex\<close>: \<open>h && h.trim().toLowerCase() === 'clinicid'\<close>.\<close>

definition isClinicIdHeader :: "string \<Rightarrow> bool" where
  "isClinicIdHeader h = (h \<noteq> [] \<and> toLowerCase (trim h) = ''clinicid'')"

text \<open>\<open>headers.forEach((header, index) => { clinic[header] = row[index] || ''; })\<close>,
  from \<open>index\<close> on.\<close>

fun forEach_header :: "row \<Rightarrow> nat \<Rightarrow> row \<Rightarrow> clinic \<Rightarrow> clinic" where
  "forEach_header [] index row clinic = clinic"
| "forEach_header (header # headers) index row clinic =
     forEach_header headers (Suc index) row (assign clinic header (or_empty (at_index row index)))"

text \<open>The condition of the \<open>if\<close> in the row loop:
  \<open>row[clinicIdColIndex] && row[clinicIdColIndex].trim() === clinicId\<close>.\<close>

definition rowMatches :: "row \<Rightarrow> nat \<Rightarrow> string \<Rightarrow> bool" where
  "rowMatches row clinicIdColIndex clinicId =
     (case at_index row clinicIdColIndex of
        None \<Rightarrow> False
      | Some c \<Rightarrow> c \<noteq> [] \<and> trim c = clinicId)"

text \<open>The row loop \<open>for (let i = 1; i < rows.length; i++)\<close>; the first argument is
  the rows from index \<open>i\<close> on.\<close>

fun findRow :: "table \<Rightarrow> row \<Rightarrow> nat \<Rightarrow> string \<Rightarrow> clinic option" where
  "findRow [] headers clinicIdColIndex clinicId = None"
| "findRow (row # rows) headers clinicIdColIndex clinicId =
     (if rowMatches row clinicIdColIndex clinicId
      then Some (forEach_header headers 0 row Map.empty)
      else findRow rows headers clinicIdColIndex clinicId)"

definition findClinic :: "table \<Rightarrow> string \<Rightarrow> clinic option" where
  "findClinic rows clinicId =
     (if length rows < 2 then None
      else
        let headers = rows ! 0 in
        case findIndex isClinicIdHeader headers of
          None \<Rightarrow> None
        | Some clinicIdColIndex \<Rightarrow> findRow (drop 1 rows) headers clinicIdColIndex clinicId)"

section \<open>timeAgo\<close>

text \<open>
  \<open>new Date(timestampString)\<close> is the platform's parser, a parameter of the model. Its
  result is a time value in milliseconds, an invalid date (\<open>getTime()\<close> is \<open>NaN\<close>), or an
  exception. Time values are integers of magnitude at most 8.64e15, on which the
  subtraction is exact and \<open>Math.floor\<close> of the quotient by 86400000 is the integer
  quotient rounded down.
\<close>

datatype date = DateThrows | InvalidDate | TimeValue int

definition msPerDay :: int where
  "msPerDay = 1000 * 60 * 60 * 24"

text \<open>\<open>now1\<close> is the clock read by \<open>new Date()\<close>, \<open>now2\<close> the one read by
  \<open>Date.now()\<close> two lines below.\<close>

definition timeAgo :: "(string \<Rightarrow> date) \<Rightarrow> int \<Rightarrow> int \<Rightarrow> string \<Rightarrow> string option" where
  "timeAgo newDate now1 now2 timestampString =
     (if timestampString = [] \<or> trim timestampString = [] then None
      else
        case newDate timestampString of
          DateThrows \<Rightarrow> None
        | InvalidDate \<Rightarrow> None
        | TimeValue lastUpdated \<Rightarrow>
            if lastUpdated > now1 then Some ''recently''
            else
              let daysSince = (now2 - lastUpdated) div msPerDay in
              if daysSince = 0 then Some ''today''
              else if daysSince = 1 then Some ''yesterday''
              else if daysSince < 7 then Some (numberToString daysSince @ '' days ago'')
              else
                let weeksSince = daysSince div 7 in
                if weeksSince = 1 then Some ''1 week ago''
                else if weeksSince = 2 then Some ''2 weeks ago''
                else if weeksSince \<ge> 3 then Some ''3+ weeks ago''
                else Some (numberToString daysSince @ '' days ago''))"

section \<open>getData\<close>

definition cacheDuration :: int where
  "cacheDuration = 5 * 60 * 1000"

datatype error =
    SecurityError   \<comment> \<open>\<open>localStorage.getItem\<close> throws\<close>
  | SyntaxError     \<comment> \<open>\<open>JSON.parse\<close> throws\<close>
  | TypeError       \<comment> \<open>destructuring \<open>null\<close> throws\<close>
  | NetworkError    \<comment> \<open>the promise of \<open>fetch\<close> rejects\<close>
  | FailedToFetch   \<comment> \<open>\<open>new Error('Failed to fetch data')\<close>\<close>
  | BodyError       \<comment> \<open>the promise of \<open>response.text()\<close> rejects\<close>

text \<open>The member \<open>data\<close> of the parsed blob: \<open>undefined\<close> when there is none.\<close>

datatype data = Undefined | Rows table

text \<open>
  The result of \<open>JSON.parse(cached)\<close> as far as \<open>getData\<close> looks at it: an exception,
  \<open>null\<close>, or a value with its members \<open>data\<close> and \<open>timestamp\<close>, the latter as the number
  the subtraction converts it to (\<open>None\<close> for \<open>NaN\<close>, which \<open>undefined\<close> gives).
\<close>

datatype parsed = ParseThrows | ParsedNull | ParsedValue data "int option"

datatype item = GetItemThrows | Item "string option"

datatype body = TextRejects | Text string

datatype response = FetchRejects | Response bool body

text \<open>
  What the browser answers during one call of \<open>getData\<close>: the stored item, the two
  JSON functions, the clock at the two calls of \<open>Date.now()\<close>, the response to
  \<open>fetch\<close>, and whether \<open>localStorage.setItem\<close> returns (\<open>True\<close>) or throws.
\<close>

record env =
  getItem :: item
  JSON_parse :: "string \<Rightarrow> parsed"
  now_cached :: int
  fetch :: response
  now_fetched :: int
  JSON_stringify :: "table \<Rightarrow> int \<Rightarrow> string"
  setItem_returns :: bool

datatype settled = Resolved data int | Rejected error

text \<open>
  What a call does: how its promise settles, whether \<open>fetch\<close> was called, and the blob
  that \<open>setItem\<close> stored (\<open>None\<close> when it was not called or threw).
\<close>

record outcome =
  settled :: settled
  fetched :: bool
  stored :: "string option"

text \<open>The \<open>then\<close> chain on \<open>fetch(CONFIG.csvUrl)\<close>.\<close>

definition fetchFresh :: "env \<Rightarrow> outcome" where
  "fetchFresh e =
     (case fetch e of
        FetchRejects \<Rightarrow> \<lparr>settled = Rejected NetworkError, fetched = True, stored = None\<rparr>
      | Response ok b \<Rightarrow>
          if \<not> ok then \<lparr>settled = Rejected FailedToFetch, fetched = True, stored = None\<rparr>
          else
            case b of
              TextRejects \<Rightarrow> \<lparr>settled = Rejected BodyError, fetched = True, stored = None\<rparr>
            | Text csvText \<Rightarrow>
                let rows = parseCSV csvText;
                    timestamp = now_fetched e
                in \<lparr>settled = Resolved (Rows rows) timestamp, fetched = True,
                    stored = (if setItem_returns e
                              then Some (JSON_stringify e rows timestamp) else None)\<rparr>)"

text \<open>The executor of the promise. An exception in it rejects the promise.\<close>

definition getData :: "env \<Rightarrow> outcome" where
  "getData e =
     (case getItem e of
        GetItemThrows \<Rightarrow> \<lparr>settled = Rejected SecurityError, fetched = False, stored = None\<rparr>
      | Item cached \<Rightarrow>
          (case cached of
             None \<Rightarrow> fetchFresh e
           | Some blob \<Rightarrow>
               if blob = [] then fetchFresh e
               else
                 case JSON_parse e blob of
                   ParseThrows \<Rightarrow> \<lparr>settled = Rejected SyntaxError, fetched = False, stored = None\<rparr>
                 | ParsedNull \<Rightarrow> \<lparr>settled = Rejected TypeError, fetched = False, stored = None\<rparr>
                 | ParsedValue data timestamp \<Rightarrow>
                     (case timestamp of
                        None \<Rightarrow> fetchFresh e
                      | Some t \<Rightarrow>
                          let age = now_cached e - t in
                          if age < cacheDuration
                          then \<lparr>settled = Resolved data t, fetched = False, stored = None\<rparr>
                          else fetchFresh e)))"


section \<open>Notions used to state the properties\<close>

text \<open>A cell without a double quote, a comma or a line terminator.\<close>

definition plain :: "string \<Rightarrow> bool" where
  "plain cell = (\<forall>c \<in> set cell. c \<noteq> QUOTE \<and> c \<noteq> COMMA \<and> c \<noteq> LF \<and> c \<noteq> CR)"

text \<open>A table of non-quoted, comma-free cells.\<close>

definition simpleCells :: "table \<Rightarrow> bool" where
  "simpleCells t = (\<forall>row \<in> set t. \<forall>cell \<in> set row. QUOTE \<notin> set cell \<and> COMMA \<notin> set cell)"

text \<open>
  A table of plain cells in which every row has a cell and no row is the single empty
  cell.
\<close>

definition simpleRows :: "table \<Rightarrow> bool" where
  "simpleRows t = (\<forall>row \<in> set t. row \<noteq> [] \<and> row \<noteq> [[]] \<and> (\<forall>cell \<in> set row. plain cell))"

text \<open>
  Modelled from the spec: \<open>serializeAsCsv\<close> is named by the round-trip property only and
  is no function of the program. It is the serialization the property words: the cells of
  a row joined by commas, every row terminated by a newline.
\<close>

fun joinCells :: "row \<Rightarrow> string" where
  "joinCells [] = []"
| "joinCells [cell] = cell"
| "joinCells (cell # cells) = cell @ COMMA # joinCells cells"

definition serializeAsCsv :: "table \<Rightarrow> string" where
  "serializeAsCsv t = concat (map (\<lambda>row. joinCells row @ [LF]) t)"

text \<open>A field between double quotes, every double quote of it doubled.\<close>

definition escapeQuotes :: "string \<Rightarrow> string" where
  "escapeQuotes f = concat (map (\<lambda>c. if c = QUOTE then [QUOTE, QUOTE] else [c]) f)"

definition quoteField :: "string \<Rightarrow> string" where
  "quoteField f = QUOTE # escapeQuotes f @ [QUOTE]"

text \<open>Every row pushed has two cells or more, or one cell that is not empty.\<close>

definition emitted :: "table \<Rightarrow> bool" where
  "emitted t = (\<forall>row \<in> set t. row \<noteq> [] \<and> row \<noteq> [[]])"

section \<open>The tokenizer: the loop\<close>

declare scan.simps(2) [simp del]

lemma scan_Cons:
  "iteration char (nextChar_of rest) st = (st', skip) \<Longrightarrow>
   scan (char # rest) st = scan (if skip then tl rest else rest) st'"
  by (simp add: scan.simps(2))

lemma scan_single: "scan [c] st = fst (iteration c None st)"
  by (simp add: iteration_def scan.simps(2))

lemma finish_endRow: "finish (endRow st) = finish st"
  by (simp add: finish_def endRow_def)

lemma endRow_endRow: "endRow (endRow st) = endRow st"
  by (simp add: endRow_def)

lemma scan_LF: "\<not> inQuotes st \<Longrightarrow> scan (LF # rest) st = scan rest (endRow st)"
  by (simp add: iteration_def scan.simps(2))

lemma scan_CR_LF: "\<not> inQuotes st \<Longrightarrow> scan (CR # LF # rest) st = scan rest (endRow st)"
  by (simp add: iteration_def scan.simps(2))

lemma scan_CR:
  "\<not> inQuotes st \<Longrightarrow> nextChar_of rest \<noteq> Some LF \<Longrightarrow> scan (CR # rest) st = scan rest (endRow st)"
  by (simp add: iteration_def scan.simps(2))

lemma scan_comma:
  "\<not> inQuotes st \<Longrightarrow>
   scan (COMMA # rest) st =
   scan rest (st\<lparr>currentLine := currentLine st @ [currentField st], currentField := []\<rparr>)"
  by (simp add: iteration_def scan.simps(2))

lemma scan_literal:
  "c \<noteq> QUOTE \<Longrightarrow> inQuotes st \<or> (c \<noteq> COMMA \<and> c \<noteq> LF \<and> c \<noteq> CR) \<Longrightarrow>
   scan (c # rest) st = scan rest (st\<lparr>currentField := currentField st @ [c]\<rparr>)"
  by (auto simp add: iteration_def scan.simps(2))

lemma scan_doubled_quote:
  "inQuotes st \<Longrightarrow>
   scan (QUOTE # QUOTE # rest) st = scan rest (st\<lparr>currentField := currentField st @ [QUOTE]\<rparr>)"
  by (simp add: iteration_def scan.simps(2))

lemma scan_closing_quote:
  "inQuotes st \<Longrightarrow> nextChar_of rest \<noteq> Some QUOTE \<Longrightarrow>
   scan (QUOTE # rest) st = scan rest (st\<lparr>inQuotes := False\<rparr>)"
  by (simp add: iteration_def scan.simps(2))

text \<open>The character after the last one of a text matters in two cases only.\<close>

lemma iteration_lookahead:
  "t = LF \<or> t = CR \<Longrightarrow> \<not> (c = CR \<and> t = LF \<and> \<not> inQuotes st) \<Longrightarrow>
   iteration c (Some t) st = iteration c None st"
  by (auto simp add: iteration_def)

lemma iteration_no_skip_at_end: "snd (iteration c None st) = False"
  by (simp add: iteration_def)

text \<open>
  A terminator \<open>t\<close> after a text \<open>a\<close> that ends outside quotes ends the row, whatever
  \<open>a\<close> ends with: \<open>x\<close> is what follows \<open>t\<close>, and \<open>y\<close> is what the loop goes on with.
\<close>

lemma scan_boundary:
  assumes t: "t = LF \<or> t = CR"
    and xy: "t = LF \<longrightarrow> x = y"
    and step: "\<And>st'. \<not> inQuotes st' \<Longrightarrow> scan (t # x) st' = scan y (endRow st')"
  shows "\<not> inQuotes (scan a st) \<Longrightarrow> scan (a @ t # x) st = scan y (endRow (scan a st))"
proof (induction a st rule: scan.induct)
  case (1 st)
  then show ?case using step[of st] by simp
next
  case (2 char rest st)
  show ?case
  proof (cases rest)
    case Nil
    show ?thesis
    proof (cases "char = CR \<and> t = LF \<and> \<not> inQuotes st")
      case True
      then have "scan ((char # rest) @ t # x) st = scan y (endRow st)"
        using Nil xy by (simp add: scan_CR_LF)
      moreover have "scan (char # rest) st = endRow st"
        using True Nil by (simp add: scan_single iteration_def)
      ultimately show ?thesis by (simp add: endRow_endRow)
    next
      case False
      obtain st' where it: "iteration char None st = (st', False)"
        using iteration_no_skip_at_end[of char st] by (cases "iteration char None st") auto
      have last: "scan (char # rest) st = st'"
        using it Nil by (simp add: scan_single)
      have "iteration char (nextChar_of (t # x)) st = (st', False)"
        using iteration_lookahead[OF t False] it by simp
      then have "scan (char # t # x) st = scan (t # x) st'"
        using scan_Cons[of char "t # x" st st' False] by simp
      also have "\<dots> = scan y (endRow st')"
        using step[of st'] 2(2) last by simp
      finally show ?thesis using Nil last by simp
    qed
  next
    case (Cons d rest')
    obtain st' skip where it: "iteration char (nextChar_of rest) st = (st', skip)"
      by (cases "iteration char (nextChar_of rest) st")
    let ?r = "if skip then tl rest else rest"
    have it2: "iteration char (nextChar_of (rest @ t # x)) st = (st', skip)"
      using it Cons by simp
    have r2: "(if skip then tl (rest @ t # x) else rest @ t # x) = ?r @ t # x"
      using Cons by simp
    have q: "\<not> inQuotes (scan ?r st')"
      using 2(2) scan_Cons[OF it] by simp
    have ih: "scan (?r @ t # x) st' = scan y (endRow (scan ?r st'))"
      using 2(1)[OF it[symmetric] refl q] .
    have "scan ((char # rest) @ t # x) st = scan (?r @ t # x) st'"
      using scan_Cons[OF it2] r2 by simp
    then show ?thesis using ih scan_Cons[OF it] by simp
  qed
qed

text \<open>Rows already pushed are never touched again.\<close>

lemma iteration_lines_prefix:
  "iteration c n (st\<lparr>lines := L @ lines st\<rparr>) =
   ((fst (iteration c n st))\<lparr>lines := L @ lines (fst (iteration c n st))\<rparr>, snd (iteration c n st))"
  by (simp add: iteration_def endRow_def)

lemma scan_lines_prefix:
  "scan s (st\<lparr>lines := L @ lines st\<rparr>) = (scan s st)\<lparr>lines := L @ lines (scan s st)\<rparr>"
proof (induction s st rule: scan.induct)
  case (1 st)
  then show ?case by simp
next
  case (2 char rest st)
  obtain st' skip where it: "iteration char (nextChar_of rest) st = (st', skip)"
    by (cases "iteration char (nextChar_of rest) st")
  have it2: "iteration char (nextChar_of rest) (st\<lparr>lines := L @ lines st\<rparr>) =
             (st'\<lparr>lines := L @ lines st'\<rparr>, skip)"
    using it by (simp add: iteration_lines_prefix)
  show ?case
    using 2[OF it[symmetric] refl] scan_Cons[OF it] scan_Cons[OF it2] by simp
qed

lemma finish_lines_prefix: "finish (st\<lparr>lines := L @ lines st\<rparr>) = L @ finish st"
  by (simp add: finish_def)

lemma endRow_outside_quotes:
  "\<not> inQuotes st \<Longrightarrow> endRow st = start\<lparr>lines := finish st @ lines start\<rparr>"
  by (cases st) (simp add: endRow_def finish_def start_def)

lemma parseCSV_after_boundary:
  assumes "\<not> inQuotes (scan a start)"
    and "scan s start = scan b (endRow (scan a start))"
  shows "parseCSV s = parseCSV a @ parseCSV b"
proof -
  have "scan s start = scan b (start\<lparr>lines := parseCSV a @ lines start\<rparr>)"
    using assms endRow_outside_quotes[of "scan a start"] by (simp add: parseCSV_def)
  then show ?thesis
    by (simp add: parseCSV_def scan_lines_prefix finish_lines_prefix)
qed

lemma emitted_iteration: "emitted (lines st) \<Longrightarrow> emitted (lines (fst (iteration c n st)))"
  by (auto simp add: iteration_def endRow_def emitted_def)

lemma emitted_scan: "emitted (lines st) \<Longrightarrow> emitted (lines (scan s st))"
proof (induction s st rule: scan.induct)
  case (1 st)
  then show ?case by simp
next
  case (2 char rest st)
  obtain st' skip where it: "iteration char (nextChar_of rest) st = (st', skip)"
    by (cases "iteration char (nextChar_of rest) st")
  have "emitted (lines st')"
    using emitted_iteration[OF 2(2), of char "nextChar_of rest"] it by simp
  then show ?case using 2(1)[OF it[symmetric] refl] scan_Cons[OF it] by simp
qed

lemma emitted_parseCSV: "emitted (parseCSV s)"
proof -
  have "emitted (lines (scan s start))"
    by (rule emitted_scan) (simp add: emitted_def start_def)
  then show ?thesis by (auto simp add: parseCSV_def finish_def emitted_def)
qed


section \<open>The tokenizer: rows\<close>

text \<open>
  C5. Outside quotes a line feed, a carriage return followed by a line feed, and a bare
  carriage return each end the row: the text before and the text after are tokenized on
  their own, and the pair CR LF is one boundary. Inside an open quote a terminator is
  appended to the pending field. At a boundary and at the end of the input the row is
  pushed exactly when a field was pushed before or the pending field is not empty, so no
  row of the result is empty or the single empty cell; a terminator at the end of a text
  that ends outside quotes changes nothing, and the empty text has no rows.
\<close>

theorem parseCSV_row_boundaries:
  "(\<not> inQuotes (scan a start) \<longrightarrow>
      parseCSV (a @ LF # b) = parseCSV a @ parseCSV b
    \<and> parseCSV (a @ CR # LF # b) = parseCSV a @ parseCSV b
    \<and> (nextChar_of b \<noteq> Some LF \<longrightarrow> parseCSV (a @ CR # b) = parseCSV a @ parseCSV b)
    \<and> parseCSV (a @ [LF]) = parseCSV a
    \<and> parseCSV (a @ [CR]) = parseCSV a
    \<and> parseCSV (a @ [CR, LF]) = parseCSV a)
   \<and> (inQuotes st \<and> (c = LF \<or> c = CR) \<longrightarrow>
        scan (c # rest) st = scan rest (st\<lparr>currentField := currentField st @ [c]\<rparr>))
   \<and> lines (endRow st) =
        (if currentLine st \<noteq> [] \<or> currentField st \<noteq> []
         then lines st @ [currentLine st @ [currentField st]] else lines st)
   \<and> finish st =
        (if currentLine st \<noteq> [] \<or> currentField st \<noteq> []
         then lines st @ [currentLine st @ [currentField st]] else lines st)
   \<and> (\<forall>row \<in> set (parseCSV s). row \<noteq> [] \<and> row \<noteq> [[]])
   \<and> parseCSV [] = []"
proof -
  have split: "parseCSV (a @ t # x) = parseCSV a @ parseCSV y"
    if q: "\<not> inQuotes (scan a start)" and t: "t = LF \<or> t = CR" and xy: "t = LF \<longrightarrow> x = y"
      and step: "\<And>st'. \<not> inQuotes st' \<Longrightarrow> scan (t # x) st' = scan y (endRow st')"
    for t x y
    using parseCSV_after_boundary[OF q scan_boundary[OF t xy step q]] by simp
  have empty: "parseCSV [] = []"
    by (simp add: parseCSV_def finish_def start_def)
  have outside: "parseCSV (a @ LF # b) = parseCSV a @ parseCSV b
      \<and> parseCSV (a @ CR # LF # b) = parseCSV a @ parseCSV b
      \<and> (nextChar_of b \<noteq> Some LF \<longrightarrow> parseCSV (a @ CR # b) = parseCSV a @ parseCSV b)
      \<and> parseCSV (a @ [LF]) = parseCSV a
      \<and> parseCSV (a @ [CR]) = parseCSV a
      \<and> parseCSV (a @ [CR, LF]) = parseCSV a"
    if q: "\<not> inQuotes (scan a start)"
  proof -
    have 1: "parseCSV (a @ LF # x) = parseCSV a @ parseCSV x" for x
      using split[OF q, of LF x x] by (simp add: scan_LF)
    have 2: "parseCSV (a @ CR # LF # x) = parseCSV a @ parseCSV x" for x
      using split[OF q, of CR "LF # x" x] by (simp add: scan_CR_LF)
    have 3: "parseCSV (a @ CR # x) = parseCSV a @ parseCSV x" if "nextChar_of x \<noteq> Some LF" for x
      using split[OF q, of CR x x] that by (simp add: scan_CR)
    show ?thesis using 1[of b] 2[of b] 3[of b] 1[of "[]"] 3[of "[]"] 2[of "[]"] empty by simp
  qed
  have inside: "scan (c # rest) st = scan rest (st\<lparr>currentField := currentField st @ [c]\<rparr>)"
    if "inQuotes st" "c = LF \<or> c = CR"
    using that scan_literal[of c st rest] by auto
  have rows: "\<forall>row \<in> set (parseCSV s). row \<noteq> [] \<and> row \<noteq> [[]]"
    using emitted_parseCSV[of s] by (simp add: emitted_def)
  have push: "lines (endRow st) =
        (if currentLine st \<noteq> [] \<or> currentField st \<noteq> []
         then lines st @ [currentLine st @ [currentField st]] else lines st)"
    by (simp add: endRow_def)
  have fin: "finish st =
        (if currentLine st \<noteq> [] \<or> currentField st \<noteq> []
         then lines st @ [currentLine st @ [currentField st]] else lines st)"
    by (simp add: finish_def)
  show ?thesis
    using outside inside rows empty by (simp only: push fin) blast
qed

text \<open>
  The text \<open>a,b CR LF c,d CR LF\<close> has exactly two rows of two cells each, and the
  text \<open>a,b LF\<close> has the one row \<open>a,b\<close>.
\<close>

theorem parseCSV_row_boundaries_witness:
  "parseCSV (''a,b'' @ CR # LF # ''c,d'' @ [CR, LF]) = [[''a'', ''b''], [''c'', ''d'']]
   \<and> parseCSV (''a,b'' @ CR # ''c,d'') = [[''a'', ''b''], [''c'', ''d'']]
   \<and> parseCSV (''a,b'' @ [LF]) = [[''a'', ''b'']]
   \<and> parseCSV ''a,b'' = [[''a'', ''b'']]
   \<and> parseCSV (QUOTE # ''x'' @ LF # ''y'' @ [QUOTE]) = [[''x'' @ LF # ''y'']]"
proof -
  have ab: "parseCSV ''a,b'' = [[''a'', ''b'']]"
    by (simp add: parseCSV_def start_def finish_def iteration_def scan.simps(2))
  have cd: "parseCSV ''c,d'' = [[''c'', ''d'']]"
    by (simp add: parseCSV_def start_def finish_def iteration_def scan.simps(2))
  have q1: "\<not> inQuotes (scan ''a,b'' start)"
    by (simp add: start_def iteration_def scan.simps(2))
  have q2: "\<not> inQuotes (scan ''c,d'' start)"
    by (simp add: start_def iteration_def scan.simps(2))
  let ?open = "\<lparr>lines = [], currentLine = [], currentField = ''x'', inQuotes = True\<rparr>"
  have open_quote: "scan (QUOTE # ''x'' @ LF # ''y'' @ [QUOTE]) start = scan (LF # ''y'' @ [QUOTE]) ?open"
    by (simp add: start_def iteration_def scan.simps(2))
  have "scan (LF # ''y'' @ [QUOTE]) ?open
        = scan (''y'' @ [QUOTE]) (?open\<lparr>currentField := currentField ?open @ [LF]\<rparr>)"
    using parseCSV_row_boundaries[of "[]" "[]" ?open LF "''y'' @ [QUOTE]" "[]"] by simp
  then have quoted: "parseCSV (QUOTE # ''x'' @ LF # ''y'' @ [QUOTE]) = [[''x'' @ LF # ''y'']]"
    using open_quote by (simp add: parseCSV_def finish_def iteration_def scan.simps(2))
  have "parseCSV (''c,d'' @ [CR, LF]) = [[''c'', ''d'']]"
    using parseCSV_row_boundaries[of "''c,d''" "[]" start LF "[]" "[]"] q2 cd
    by simp
  then show ?thesis
    using parseCSV_row_boundaries[of "''a,b''" "''c,d'' @ [CR, LF]" start LF "[]" "''a,b''"]
      parseCSV_row_boundaries[of "''a,b''" "''c,d''" start LF "[]" "''a,b''"]
      q1 ab cd quoted
    by simp
qed

section \<open>The tokenizer: quoted fields\<close>

lemma scan_escapeQuotes:
  "inQuotes st \<Longrightarrow> nextChar_of rest \<noteq> Some QUOTE \<Longrightarrow>
   scan (escapeQuotes f @ QUOTE # rest) st =
   scan rest (st\<lparr>currentField := currentField st @ f, inQuotes := False\<rparr>)"
proof (induction f arbitrary: st)
  case Nil
  then show ?case by (simp add: escapeQuotes_def scan_closing_quote)
next
  case (Cons c f)
  let ?st = "st\<lparr>currentField := currentField st @ [c]\<rparr>"
  have "scan (escapeQuotes (c # f) @ QUOTE # rest) st = scan (escapeQuotes f @ QUOTE # rest) ?st"
  proof (cases "c = QUOTE")
    case True
    then show ?thesis
      using scan_doubled_quote[OF Cons.prems(1), of "escapeQuotes f @ QUOTE # rest"]
      by (simp add: escapeQuotes_def)
  next
    case False
    then show ?thesis
      using scan_literal[of c st "escapeQuotes f @ QUOTE # rest"] Cons.prems(1)
      by (simp add: escapeQuotes_def)
  qed
  then show ?case using Cons.IH[of ?st] Cons.prems by simp
qed

text \<open>
  C6. Inside an open quote a comma is appended to the pending field, and a doubled
  double quote appends one double quote. A field written between double quotes, its
  double quotes doubled, is read back as it was, commas and terminators included. The two
  examples of the specification evaluate as it says.
\<close>

theorem parseCSV_quoted_fields:
  \<open>(inQuotes st \<longrightarrow>
      scan (COMMA # rest) st = scan rest (st\<lparr>currentField := currentField st @ [COMMA]\<rparr>)
    \<and> scan (QUOTE # QUOTE # rest) st = scan rest (st\<lparr>currentField := currentField st @ [QUOTE]\<rparr>))
   \<and> parseCSV (quoteField f) = (if f = [] then [] else [[f]])
   \<and> parseCSV ''a,"b,c",d\<newline>'' = [[''a'', ''b,c'', ''d'']]
   \<and> parseCSV ''"He said ""hi""",2\<newline>'' = [[''He said "hi"'', ''2'']]\<close>
proof -
  have 1: "scan (COMMA # rest) st = scan rest (st\<lparr>currentField := currentField st @ [COMMA]\<rparr>)"
    if "inQuotes st"
    using that scan_literal[of COMMA st rest] by simp
  have 2: "scan (QUOTE # QUOTE # rest) st = scan rest (st\<lparr>currentField := currentField st @ [QUOTE]\<rparr>)"
    if "inQuotes st"
    using that by (rule scan_doubled_quote)
  have "scan (quoteField f) start = start\<lparr>currentField := f\<rparr>"
    using scan_escapeQuotes[of "start\<lparr>inQuotes := True\<rparr>" "[]" f]
    by (simp add: quoteField_def start_def iteration_def scan.simps(2))
  then have 3: "parseCSV (quoteField f) = (if f = [] then [] else [[f]])"
    by (simp add: parseCSV_def finish_def start_def)
  have 4: \<open>parseCSV ''a,"b,c",d\<newline>'' = [[''a'', ''b,c'', ''d'']]\<close>
    by (simp add: parseCSV_def start_def finish_def endRow_def iteration_def scan.simps(2))
  have 5: \<open>parseCSV ''"He said ""hi""",2\<newline>'' = [[''He said "hi"'', ''2'']]\<close>
    by (simp add: parseCSV_def start_def finish_def endRow_def iteration_def scan.simps(2))
  show ?thesis using 1 2 3 4 5 by blast
qed

theorem parseCSV_quoted_fields_witness:
  \<open>parseCSV ''"b,c"'' = [[''b,c'']]
   \<and> parseCSV ''"say ""hi"""'' = [[''say "hi"'']]
   \<and> scan '',c'' \<lparr>lines = [], currentLine = [], currentField = ''b'', inQuotes = True\<rparr>
       = \<lparr>lines = [], currentLine = [], currentField = ''b,c'', inQuotes = True\<rparr>\<close>
proof -
  let ?open = "\<lparr>lines = [], currentLine = [], currentField = ''b'', inQuotes = True\<rparr>"
  have \<open>parseCSV (quoteField ''b,c'') = [[''b,c'']]\<close>
    using parseCSV_quoted_fields[of ?open "[]" "''b,c''"] by simp
  moreover have \<open>parseCSV (quoteField ''say "hi"'') = [[''say "hi"'']]\<close>
    using parseCSV_quoted_fields[of ?open "[]" \<open>''say "hi"''\<close>] by simp
  moreover have "scan '',c'' ?open = scan ''c'' (?open\<lparr>currentField := currentField ?open @ [COMMA]\<rparr>)"
    using parseCSV_quoted_fields[of ?open "''c''" "[]"] by simp
  ultimately show ?thesis
    by (simp add: quoteField_def escapeQuotes_def iteration_def scan.simps(2))
qed

section \<open>The tokenizer: reading back a serialized table\<close>

lemma scan_plain:
  "plain cell \<Longrightarrow>
   scan (cell @ rest) st = scan rest (st\<lparr>currentField := currentField st @ cell\<rparr>)"
proof (induction cell arbitrary: st)
  case Nil
  then show ?case by simp
next
  case (Cons c cell)
  have p: "plain cell" using Cons.prems by (simp add: plain_def)
  have "scan ((c # cell) @ rest) st = scan (cell @ rest) (st\<lparr>currentField := currentField st @ [c]\<rparr>)"
    using Cons.prems scan_literal[of c st "cell @ rest"] by (simp add: plain_def)
  then show ?case using Cons.IH[OF p] by simp
qed

lemma scan_row:
  "row \<noteq> [] \<Longrightarrow> \<forall>cell \<in> set row. plain cell \<Longrightarrow> \<not> inQuotes st \<Longrightarrow> currentField st = [] \<Longrightarrow>
   scan (joinCells row @ LF # rest) st =
   scan rest (endRow (st\<lparr>currentLine := currentLine st @ butlast row, currentField := last row\<rparr>))"
proof (induction row arbitrary: st rule: joinCells.induct)
  case 1
  then show ?case by simp
next
  case (2 cell)
  then show ?case by (simp add: scan_plain scan_LF)
next
  case (3 cell v va)
  let ?st = "st\<lparr>currentLine := currentLine st @ [cell], currentField := []\<rparr>"
  have "scan (joinCells (cell # v # va) @ LF # rest) st = scan (joinCells (v # va) @ LF # rest) ?st"
    using 3(3,4,5) by (simp add: scan_plain scan_comma)
  also have "\<dots> = scan rest (endRow (?st\<lparr>currentLine := currentLine ?st @ butlast (v # va),
                                              currentField := last (v # va)\<rparr>))"
    using 3(1)[of ?st] 3(3,4) by simp
  finally show ?case by simp
qed

lemma endRow_row:
  "row \<noteq> [] \<Longrightarrow> row \<noteq> [[]] \<Longrightarrow>
   endRow \<lparr>lines = L, currentLine = butlast row, currentField = last row, inQuotes = False\<rparr>
   = \<lparr>lines = L @ [row], currentLine = [], currentField = [], inQuotes = False\<rparr>"
  by (cases row rule: rev_cases) (auto simp: endRow_def)

lemma scan_table:
  "simpleRows t \<Longrightarrow>
   scan (serializeAsCsv t @ rest) \<lparr>lines = L, currentLine = [], currentField = [], inQuotes = False\<rparr>
   = scan rest \<lparr>lines = L @ t, currentLine = [], currentField = [], inQuotes = False\<rparr>"
proof (induction t arbitrary: L)
  case Nil
  then show ?case by (simp add: serializeAsCsv_def)
next
  case (Cons row t)
  let ?st = "\<lparr>lines = L, currentLine = [], currentField = [], inQuotes = False\<rparr>"
  have r: "row \<noteq> []" "row \<noteq> [[]]" "\<forall>cell \<in> set row. plain cell" and t: "simpleRows t"
    using Cons.prems by (auto simp: simpleRows_def)
  have "scan (serializeAsCsv (row # t) @ rest) ?st
        = scan (joinCells row @ LF # (serializeAsCsv t @ rest)) ?st"
    by (simp add: serializeAsCsv_def)
  also have "\<dots> = scan (serializeAsCsv t @ rest)
        (endRow \<lparr>lines = L, currentLine = butlast row, currentField = last row, inQuotes = False\<rparr>)"
    using scan_row[OF r(1) r(3), of ?st "serializeAsCsv t @ rest"] by simp
  also have "\<dots> = scan (serializeAsCsv t @ rest)
        \<lparr>lines = L @ [row], currentLine = [], currentField = [], inQuotes = False\<rparr>"
    using endRow_row[OF r(1) r(2)] by simp
  also have "\<dots> = scan rest
        \<lparr>lines = (L @ [row]) @ t, currentLine = [], currentField = [], inQuotes = False\<rparr>"
    using Cons.IH[OF t] .
  finally show ?case by simp
qed

text \<open>
  C8, as the claim states it, fails: the row made of one empty cell and the row without
  cells are serialized as a bare newline, which the tokenizer skips, and a line feed or a
  carriage return in a cell, which is no quote and no comma, splits the row.
\<close>

theorem parseCSV_roundtrip_counterexample:
  "simpleCells [['''']]
   \<and> parseCSV (serializeAsCsv [['''']]) = []
   \<and> simpleCells [[]]
   \<and> parseCSV (serializeAsCsv [[]]) = []
   \<and> simpleCells [[''a'' @ LF # ''b'']]
   \<and> parseCSV (serializeAsCsv [[''a'' @ LF # ''b'']]) = [[''a''], [''b'']]
   \<and> simpleCells [[''a'' @ CR # ''b'']]
   \<and> parseCSV (serializeAsCsv [[''a'' @ CR # ''b'']]) = [[''a''], [''b'']]"
  by (simp add: simpleCells_def serializeAsCsv_def parseCSV_def start_def finish_def
      endRow_def iteration_def scan.simps(2))

text \<open>
  C8, amended. For every table whose cells hold no double quote, no comma, no line feed
  and no carriage return, and whose rows each have a cell and are not the single empty
  cell, tokenizing the serialization of the table gives the table back.
\<close>

theorem parseCSV_roundtrip:
  "simpleRows t \<Longrightarrow> parseCSV (serializeAsCsv t) = t"
  using scan_table[of t "[]" "[]"] by (simp add: parseCSV_def start_def finish_def)

theorem parseCSV_roundtrip_witness:
  "simpleRows [[''ClinicID'', ''XRAY_AVA'', ''''], [''c1'', ''2 days'', '''']]
   \<and> serializeAsCsv [[''ClinicID'', ''XRAY_AVA'', ''''], [''c1'', ''2 days'', '''']]
       = ''ClinicID,XRAY_AVA,\<newline>c1,2 days,\<newline>''
   \<and> parseCSV ''ClinicID,XRAY_AVA,\<newline>c1,2 days,\<newline>''
       = [[''ClinicID'', ''XRAY_AVA'', ''''], [''c1'', ''2 days'', '''']]"
proof -
  have ok: "simpleRows [[''ClinicID'', ''XRAY_AVA'', ''''], [''c1'', ''2 days'', '''']]"
    by (simp add: simpleRows_def plain_def)
  have ser: "serializeAsCsv [[''ClinicID'', ''XRAY_AVA'', ''''], [''c1'', ''2 days'', '''']]
       = ''ClinicID,XRAY_AVA,\<newline>c1,2 days,\<newline>''"
    by (simp add: serializeAsCsv_def)
  show ?thesis using parseCSV_roundtrip[OF ok] ok ser by simp
qed

section \<open>The resolver\<close>



lemma trim_Nil_iff: "trim s = [] \<longleftrightarrow> (\<forall>c \<in> set s. isWhiteSpace c)"
proof
  assume "trim s = []"
  then have all: "\<forall>c \<in> set (dropWhile isWhiteSpace s). isWhiteSpace c"
    by (simp add: trim_def dropWhile_eq_Nil_conv del: set_rev) (simp only: set_rev)
  have "dropWhile isWhiteSpace s = []"
  proof (rule ccontr)
    assume ne: "dropWhile isWhiteSpace s \<noteq> []"
    then have "\<not> isWhiteSpace (hd (dropWhile isWhiteSpace s))" by (rule hd_dropWhile)
    moreover have "hd (dropWhile isWhiteSpace s) \<in> set (dropWhile isWhiteSpace s)"
      using ne by simp
    ultimately show False using all by blast
  qed
  then show "\<forall>c \<in> set s. isWhiteSpace c" by (simp add: dropWhile_eq_Nil_conv)
next
  assume "\<forall>c \<in> set s. isWhiteSpace c"
  then have d: "dropWhile isWhiteSpace s = []" by (simp add: dropWhile_eq_Nil_conv)
  show "trim s = []" unfolding trim_def d by simp
qed


lemma rowMatches_iff:
  "rowMatches row i k \<longleftrightarrow> i < length row \<and> row ! i \<noteq> [] \<and> trim (row ! i) = k"
  by (simp add: rowMatches_def at_index_def)

lemma findRow_find:
  "findRow rows headers i k =
   map_option (\<lambda>row. forEach_header headers 0 row Map.empty) (find (\<lambda>row. rowMatches row i k) rows)"
  by (induction rows) auto

lemma findRow_append:
  "findRow (xs @ ys) headers i k =
   (case findRow xs headers i k of None \<Rightarrow> findRow ys headers i k | Some clinic \<Rightarrow> Some clinic)"
  by (induction xs) auto

lemma findClinic_Cons:
  "findClinic (headers # rows) k =
   (case findIndex isClinicIdHeader headers of
      None \<Rightarrow> None
    | Some i \<Rightarrow> findRow rows headers i k)"
  by (cases rows) (auto simp: findClinic_def split: option.splits)

text \<open>What \<open>forEach\<close> leaves in the record.\<close>

lemma forEach_header_other:
  "h \<notin> set hs \<or> h = ''__proto__'' \<Longrightarrow> forEach_header hs i row clinic h = clinic h"
  by (induction hs arbitrary: i clinic) (auto simp: assign_def)

lemma forEach_header_last:
  "j < length hs \<Longrightarrow> hs ! j \<noteq> ''__proto__'' \<Longrightarrow>
   \<forall>k. j < k \<and> k < length hs \<longrightarrow> hs ! k \<noteq> hs ! j \<Longrightarrow>
   forEach_header hs i row clinic (hs ! j) = Some (or_empty (at_index row (i + j)))"
proof (induction hs arbitrary: i j clinic)
  case Nil
  then show ?case by simp
next
  case (Cons h hs)
  show ?case
  proof (cases j)
    case 0
    have "h \<notin> set hs"
    proof
      assume "h \<in> set hs"
      then obtain k where "k < length hs" "hs ! k = h" by (auto simp: in_set_conv_nth)
      then show False using Cons.prems(3)[rule_format, of "Suc k"] 0 by simp
    qed
    then show ?thesis using 0 Cons.prems(2) forEach_header_other[of h hs "Suc i" row]
      by (simp add: assign_def)
  next
    case (Suc m)
    have "\<forall>k. m < k \<and> k < length hs \<longrightarrow> hs ! k \<noteq> hs ! m"
      using Cons.prems(3) Suc by (metis Suc_less_eq length_Cons nth_Cons_Suc)
    then show ?thesis using Suc Cons.prems(1,2) Cons.IH[of m "Suc i"] by simp
  qed
qed

lemma dom_forEach_header:
  "dom (forEach_header hs i row clinic) = dom clinic \<union> (set hs - {''__proto__''})"
  by (induction hs arbitrary: i clinic) (auto simp: assign_def split: if_splits)




text \<open>
  C9. With \<open>i\<close> the index of the key column, a data row that has no cell at \<open>i\<close>, or
  the empty string there, is never the row returned, whatever the key value: taking the
  row out of the table changes no result. So the empty key value finds nothing in a table
  whose key cells are all absent or empty, while it does find a row whose key cell is not
  empty and holds white space only.
\<close>

theorem findClinic_empty_key_cell:
  "(findIndex isClinicIdHeader headers = Some i \<and> (length row \<le> i \<or> row ! i = [])
      \<longrightarrow> findClinic (headers # before @ row # after) clinicId
          = findClinic (headers # before @ after) clinicId)
   \<and> (findIndex isClinicIdHeader headers = Some i
        \<and> (\<forall>r \<in> set rows. length r \<le> i \<or> r ! i = [])
      \<longrightarrow> findClinic (headers # rows) clinicId = None)
   \<and> (findIndex isClinicIdHeader headers = Some i \<and> i < length row \<and> row ! i \<noteq> []
        \<and> (\<forall>c \<in> set (row ! i). isWhiteSpace c)
      \<longrightarrow> findClinic (headers # row # rows) [] = Some (forEach_header headers 0 row Map.empty))"
proof -
  have 1: "findClinic (headers # before @ row # after) clinicId
          = findClinic (headers # before @ after) clinicId"
    if "findIndex isClinicIdHeader headers = Some i" "length row \<le> i \<or> row ! i = []"
  proof -
    have "\<not> rowMatches row i clinicId"
      using that(2) by (auto simp add: rowMatches_iff)
    then show ?thesis
      using that(1) by (simp add: findClinic_Cons findRow_append split: option.splits)
  qed
  have 2: "findClinic (headers # rows) clinicId = None"
    if "findIndex isClinicIdHeader headers = Some i" "\<forall>r \<in> set rows. length r \<le> i \<or> r ! i = []"
  proof -
    have "find (\<lambda>r. rowMatches r i clinicId) rows = None"
      using that(2) by (auto simp add: find_None_iff rowMatches_iff)
    then show ?thesis
      using that(1) by (simp add: findClinic_Cons findRow_find)
  qed
  have 3: "findClinic (headers # row # rows) [] = Some (forEach_header headers 0 row Map.empty)"
    if "findIndex isClinicIdHeader headers = Some i" "i < length row" "row ! i \<noteq> []"
      "\<forall>c \<in> set (row ! i). isWhiteSpace c"
  proof -
    have "trim (row ! i) = []"
      using that(4) by (simp add: trim_Nil_iff)
    then have "rowMatches row i []"
      using that(2,3) by (simp add: rowMatches_iff)
    then show ?thesis
      using that(1) by (simp add: findClinic_Cons)
  qed
  show ?thesis using 1 2 3 by blast
qed

text \<open>
  The empty key value finds nothing where the key cell is the empty string or is
  missing, and finds the row whose key cell is a single space.
\<close>

theorem findClinic_empty_key_cell_witness:
  "findClinic [[''ClinicID'', ''XRAY_AVA''], ['''', ''1 day''], []] '''' = None
   \<and> findClinic [[''ClinicID'', ''XRAY_AVA''], ['''', ''1 day''], [''c1'', ''2 days'']] ''c1''
     = findClinic [[''ClinicID'', ''XRAY_AVA''], [''c1'', ''2 days'']] ''c1''
   \<and> findClinic [[''ClinicID'', ''XRAY_AVA''], ['' '', ''1 day'']] ''''
     = Some (forEach_header [''ClinicID'', ''XRAY_AVA''] 0 ['' '', ''1 day''] Map.empty)"
proof -
  let ?headers = "[''ClinicID'', ''XRAY_AVA'']"
  have "isClinicIdHeader ''ClinicID''"
    by code_simp
  then have key: "findIndex isClinicIdHeader ?headers = Some 0"
    by simp
  have sp: "isWhiteSpace (CHR '' '')"
    by (simp add: isWhiteSpace_def)
  have a: "findClinic [?headers, ['''', ''1 day''], []] '''' = None"
    using findClinic_empty_key_cell[of ?headers 0 "[]" "[]" "[]" "''''" "[['''', ''1 day''], []]" ]
      key by simp
  have b: "findClinic [?headers, ['''', ''1 day''], [''c1'', ''2 days'']] ''c1''
     = findClinic [?headers, [''c1'', ''2 days'']] ''c1''"
    using findClinic_empty_key_cell[of ?headers 0 "['''', ''1 day'']" "[]" "[[''c1'', ''2 days'']]" "''c1''" "[]"]
      key by simp
  have c: "findClinic [?headers, ['' '', ''1 day'']] ''''
     = Some (forEach_header ?headers 0 ['' '', ''1 day''] Map.empty)"
    using findClinic_empty_key_cell[of ?headers 0 "['' '', ''1 day'']" "[]" "[]" "''''" "[]"]
      key sp by simp
  show ?thesis using a b c by simp
qed

text \<open>
  For a header name other than \<open>__proto__\<close> the record holds the cell at the last
  column of that name, the empty string when the row is too short, and it has one field
  for each such name.
\<close>

lemma forEach_header_last_wins:
  "j < length headers \<Longrightarrow> headers ! j \<noteq> ''__proto__'' \<Longrightarrow>
   \<forall>k. j < k \<and> k < length headers \<longrightarrow> headers ! k \<noteq> headers ! j \<Longrightarrow>
   forEach_header headers 0 row Map.empty (headers ! j)
   = Some (if j < length row then row ! j else [])"
  using forEach_header_last[of j headers 0 row Map.empty]
  by (simp add: or_empty_def at_index_def)

lemma forEach_header_fields:
  "dom (forEach_header headers 0 row Map.empty) = set headers - {''__proto__''}"
  by (simp add: dom_forEach_header)

text \<open>
  C10. The header name \<open>__proto__\<close> stands at two columns. The assignment to it
  stores nothing, so the record returned has no field of that name, where the cell of the
  last such column, \<open>y\<close>, is expected, and it has one field for two distinct header
  names.
\<close>

theorem findClinic_proto_header:
  "findClinic [[''ClinicID'', ''__proto__'', ''__proto__''], [''c1'', ''x'', ''y'']] ''c1''
   = Some [''ClinicID'' \<mapsto> ''c1'']"
proof -
  have "isClinicIdHeader ''ClinicID''"
    by code_simp
  moreover have "trim ''c1'' = ''c1''"
    by code_simp
  ultimately show ?thesis
    by (simp add: findClinic_def rowMatches_def at_index_def or_empty_def assign_def)
qed

section \<open>The relative-time formatter\<close>

lemma numberToString_digit:
  "numberToString 2 = ''2''" "numberToString 3 = ''3''" "numberToString 4 = ''4''"
  "numberToString 5 = ''5''" "numberToString 6 = ''6''"
  by code_simp+

text \<open>
  C7. \<open>timeAgo\<close> returns nothing for a text that is empty or white space only, for a text
  the parser gives an invalid date for, and when the parser throws. For an instant after
  the clock it returns \<open>recently\<close>. Otherwise, with \<open>d\<close> the elapsed milliseconds divided
  by the milliseconds of a day, rounded down: \<open>today\<close> for 0, \<open>yesterday\<close> for 1, \<open>d days
  ago\<close> for 2 to 6, \<open>1 week ago\<close> for 7 to 13, \<open>2 weeks ago\<close> for 14 to 20, and
  \<open>3+ weeks ago\<close> from 21 on.
\<close>

theorem timeAgo_labels:
  "msPerDay = 86400000
   \<and> ((\<forall>c \<in> set s. isWhiteSpace c) \<longrightarrow> timeAgo newDate now1 now2 s = None)
   \<and> (newDate s = InvalidDate \<longrightarrow> timeAgo newDate now1 now2 s = None)
   \<and> (newDate s = DateThrows \<longrightarrow> timeAgo newDate now1 now2 s = None)
   \<and> (\<not> (\<forall>c \<in> set s. isWhiteSpace c) \<and> newDate s = TimeValue t \<and> now1 < t
        \<longrightarrow> timeAgo newDate now1 now2 s = Some ''recently'')
   \<and> (\<not> (\<forall>c \<in> set s. isWhiteSpace c) \<and> newDate s = TimeValue t \<and> t \<le> now1
        \<and> d = (now2 - t) div msPerDay
        \<longrightarrow> (d = 0 \<longrightarrow> timeAgo newDate now1 now2 s = Some ''today'')
          \<and> (d = 1 \<longrightarrow> timeAgo newDate now1 now2 s = Some ''yesterday'')
          \<and> (d = 2 \<longrightarrow> timeAgo newDate now1 now2 s = Some ''2 days ago'')
          \<and> (d = 3 \<longrightarrow> timeAgo newDate now1 now2 s = Some ''3 days ago'')
          \<and> (d = 4 \<longrightarrow> timeAgo newDate now1 now2 s = Some ''4 days ago'')
          \<and> (d = 5 \<longrightarrow> timeAgo newDate now1 now2 s = Some ''5 days ago'')
          \<and> (d = 6 \<longrightarrow> timeAgo newDate now1 now2 s = Some ''6 days ago'')
          \<and> (7 \<le> d \<and> d \<le> 13 \<longrightarrow> timeAgo newDate now1 now2 s = Some ''1 week ago'')
          \<and> (14 \<le> d \<and> d \<le> 20 \<longrightarrow> timeAgo newDate now1 now2 s = Some ''2 weeks ago'')
          \<and> (21 \<le> d \<longrightarrow> timeAgo newDate now1 now2 s = Some ''3+ weeks ago''))"
proof -
  have blank: "timeAgo newDate now1 now2 s = None" if "\<forall>c \<in> set s. isWhiteSpace c"
    using that trim_Nil_iff[of s] by (simp add: timeAgo_def)
  have invalid: "timeAgo newDate now1 now2 s = None" if "newDate s = InvalidDate"
    using that by (simp add: timeAgo_def)
  have throws: "timeAgo newDate now1 now2 s = None" if "newDate s = DateThrows"
    using that by (simp add: timeAgo_def)
  have future: "timeAgo newDate now1 now2 s = Some ''recently''"
    if "\<not> (\<forall>c \<in> set s. isWhiteSpace c)" "newDate s = TimeValue t" "now1 < t"
  proof -
    have "s \<noteq> []" "trim s \<noteq> []"
      using that(1) trim_Nil_iff[of s] by auto
    then show ?thesis using that(2,3) by (simp add: timeAgo_def)
  qed
  have past: "(d = 0 \<longrightarrow> timeAgo newDate now1 now2 s = Some ''today'')
          \<and> (d = 1 \<longrightarrow> timeAgo newDate now1 now2 s = Some ''yesterday'')
          \<and> (d = 2 \<longrightarrow> timeAgo newDate now1 now2 s = Some ''2 days ago'')
          \<and> (d = 3 \<longrightarrow> timeAgo newDate now1 now2 s = Some ''3 days ago'')
          \<and> (d = 4 \<longrightarrow> timeAgo newDate now1 now2 s = Some ''4 days ago'')
          \<and> (d = 5 \<longrightarrow> timeAgo newDate now1 now2 s = Some ''5 days ago'')
          \<and> (d = 6 \<longrightarrow> timeAgo newDate now1 now2 s = Some ''6 days ago'')
          \<and> (7 \<le> d \<and> d \<le> 13 \<longrightarrow> timeAgo newDate now1 now2 s = Some ''1 week ago'')
          \<and> (14 \<le> d \<and> d \<le> 20 \<longrightarrow> timeAgo newDate now1 now2 s = Some ''2 weeks ago'')
          \<and> (21 \<le> d \<longrightarrow> timeAgo newDate now1 now2 s = Some ''3+ weeks ago'')"
    if "\<not> (\<forall>c \<in> set s. isWhiteSpace c)" "newDate s = TimeValue t" "t \<le> now1"
      "d = (now2 - t) div msPerDay"
  proof -
    have ne: "s \<noteq> []" "trim s \<noteq> []"
      using that(1) trim_Nil_iff[of s] by auto
    have eq: "timeAgo newDate now1 now2 s =
        (if d = 0 then Some ''today''
         else if d = 1 then Some ''yesterday''
         else if d < 7 then Some (numberToString d @ '' days ago'')
         else if d div 7 = 1 then Some ''1 week ago''
         else if d div 7 = 2 then Some ''2 weeks ago''
         else if d div 7 \<ge> 3 then Some ''3+ weeks ago''
         else Some (numberToString d @ '' days ago''))"
      using ne that(2,3,4) by (simp add: timeAgo_def Let_def)
    have w1: "d div 7 = 1" if "7 \<le> d" "d \<le> 13" using that by presburger
    have w2: "d div 7 = 2" "d div 7 \<noteq> 1" if "14 \<le> d" "d \<le> 20" using that by presburger+
    have w3: "d div 7 \<ge> 3" "d div 7 \<noteq> 1" "d div 7 \<noteq> 2" if "21 \<le> d" using that by presburger+
    show ?thesis
      using w1 w2 w3 by (auto simp add: eq numberToString_digit)
  qed
  have day: "msPerDay = 86400000"
    by (simp add: msPerDay_def)
  show ?thesis
    using blank invalid throws future past day by blast
qed

text \<open>
  With the clock at 1700000000000 and a parser that reads a decimal number of hours
  before that instant: now is \<open>today\<close>, 25 hours ago is \<open>yesterday\<close>, 3 days ago is
  \<open>3 days ago\<close>, 13 days ago is \<open>1 week ago\<close>, 22 days ago is \<open>3+ weeks ago\<close>, one hour
  ahead is \<open>recently\<close>, and a text that is no date gives nothing, as a blank one does.
\<close>

theorem timeAgo_labels_witness:
  "timeAgo (\<lambda>s. TimeValue 1700000000000) 1700000000000 1700000000000 ''now'' = Some ''today''
   \<and> timeAgo (\<lambda>s. TimeValue (1700000000000 - 25 * 3600000)) 1700000000000 1700000000000 ''25h'' = Some ''yesterday''
   \<and> timeAgo (\<lambda>s. TimeValue (1700000000000 - 3 * 86400000)) 1700000000000 1700000000000 ''3d'' = Some ''3 days ago''
   \<and> timeAgo (\<lambda>s. TimeValue (1700000000000 - 13 * 86400000)) 1700000000000 1700000000000 ''13d'' = Some ''1 week ago''
   \<and> timeAgo (\<lambda>s. TimeValue (1700000000000 - 14 * 86400000)) 1700000000000 1700000000000 ''14d'' = Some ''2 weeks ago''
   \<and> timeAgo (\<lambda>s. TimeValue (1700000000000 - 22 * 86400000)) 1700000000000 1700000000000 ''22d'' = Some ''3+ weeks ago''
   \<and> timeAgo (\<lambda>s. TimeValue (1700000000000 + 3600000)) 1700000000000 1700000000000 ''+1h'' = Some ''recently''
   \<and> timeAgo (\<lambda>s. InvalidDate) 1700000000000 1700000000000 ''not-a-date'' = None
   \<and> timeAgo (\<lambda>s. DateThrows) 1700000000000 1700000000000 ''not-a-date'' = None
   \<and> timeAgo (\<lambda>s. TimeValue 1700000000000) 1700000000000 1700000000000 ''  '' = None"
proof -
  let ?now = "1700000000000 :: int"
  have ws: "isWhiteSpace (CHR '' '')"
    "\<not> isWhiteSpace (CHR ''n'')" "\<not> isWhiteSpace (CHR ''1'')" "\<not> isWhiteSpace (CHR ''2'')"
    "\<not> isWhiteSpace (CHR ''3'')" "\<not> isWhiteSpace (CHR ''+'')"
    by (simp_all add: isWhiteSpace_def)
  have a: "timeAgo (\<lambda>s. TimeValue ?now) ?now ?now ''now'' = Some ''today''"
    using timeAgo_labels[of "''now''" "\<lambda>s. TimeValue ?now" ?now ?now ?now 0] ws by (simp add: msPerDay_def)
  have b: "timeAgo (\<lambda>s. TimeValue (?now - 25 * 3600000)) ?now ?now ''25h'' = Some ''yesterday''"
    using timeAgo_labels[of "''25h''" "\<lambda>s. TimeValue (?now - 25 * 3600000)" ?now ?now
        "?now - 25 * 3600000" 1] ws by (simp add: msPerDay_def)
  have c: "timeAgo (\<lambda>s. TimeValue (?now - 3 * 86400000)) ?now ?now ''3d'' = Some ''3 days ago''"
    using timeAgo_labels[of "''3d''" "\<lambda>s. TimeValue (?now - 3 * 86400000)" ?now ?now
        "?now - 3 * 86400000" 3] ws by (simp add: msPerDay_def)
  have d: "timeAgo (\<lambda>s. TimeValue (?now - 13 * 86400000)) ?now ?now ''13d'' = Some ''1 week ago''"
    using timeAgo_labels[of "''13d''" "\<lambda>s. TimeValue (?now - 13 * 86400000)" ?now ?now
        "?now - 13 * 86400000" 13] ws by (simp add: msPerDay_def)
  have e: "timeAgo (\<lambda>s. TimeValue (?now - 14 * 86400000)) ?now ?now ''14d'' = Some ''2 weeks ago''"
    using timeAgo_labels[of "''14d''" "\<lambda>s. TimeValue (?now - 14 * 86400000)" ?now ?now
        "?now - 14 * 86400000" 14] ws by (simp add: msPerDay_def)
  have f: "timeAgo (\<lambda>s. TimeValue (?now - 22 * 86400000)) ?now ?now ''22d'' = Some ''3+ weeks ago''"
    using timeAgo_labels[of "''22d''" "\<lambda>s. TimeValue (?now - 22 * 86400000)" ?now ?now
        "?now - 22 * 86400000" 22] ws by (simp add: msPerDay_def)
  have g: "timeAgo (\<lambda>s. TimeValue (?now + 3600000)) ?now ?now ''+1h'' = Some ''recently''"
    using timeAgo_labels[of "''+1h''" "\<lambda>s. TimeValue (?now + 3600000)" ?now ?now
        "?now + 3600000" 0] ws by (simp add: msPerDay_def)
  have h: "timeAgo (\<lambda>s. InvalidDate) ?now ?now ''not-a-date'' = None"
    using timeAgo_labels[of "''not-a-date''" "\<lambda>s. InvalidDate" ?now ?now 0 0] by simp
  have i: "timeAgo (\<lambda>s. DateThrows) ?now ?now ''not-a-date'' = None"
    using timeAgo_labels[of "''not-a-date''" "\<lambda>s. DateThrows" ?now ?now 0 0] by simp
  have j: "timeAgo (\<lambda>s. TimeValue ?now) ?now ?now ''  '' = None"
    using timeAgo_labels[of "''  ''" "\<lambda>s. TimeValue ?now" ?now ?now 0 0] ws by (simp add: msPerDay_def)
  show ?thesis using a b c d e f g h i j by simp
qed

section \<open>The freshness cache\<close>

lemma fetched_fetchFresh: "fetched (fetchFresh e)"
  by (simp add: fetchFresh_def Let_def split: response.splits body.splits)

lemma getData_miss:
  "getItem e = Item None \<or> getItem e = Item (Some []) \<Longrightarrow> getData e = fetchFresh e"
  by (auto simp add: getData_def)

lemma getData_no_timestamp:
  "getItem e = Item (Some blob) \<Longrightarrow> JSON_parse e blob = ParsedValue d None \<Longrightarrow>
   getData e = fetchFresh e"
  by (simp add: getData_def)

lemma getData_parse_throws:
  "getItem e = Item (Some blob) \<Longrightarrow> blob \<noteq> [] \<Longrightarrow> JSON_parse e blob = ParseThrows \<Longrightarrow>
   getData e = \<lparr>settled = Rejected SyntaxError, fetched = False, stored = None\<rparr>"
  by (simp add: getData_def)

lemma getData_parsed_null:
  "getItem e = Item (Some blob) \<Longrightarrow> blob \<noteq> [] \<Longrightarrow> JSON_parse e blob = ParsedNull \<Longrightarrow>
   getData e = \<lparr>settled = Rejected TypeError, fetched = False, stored = None\<rparr>"
  by (simp add: getData_def)

text \<open>
  C1. The store holds the text \<open>{\<close>, on which \<open>JSON.parse\<close> throws. The feed is
  there to be fetched, and yet the promise is rejected with the syntax error and no fetch
  is made: the call is not handled as a cache miss.
\<close>

theorem getData_malformed_blob:
  "getData \<lparr>getItem = Item (Some ''{''),
            JSON_parse = (\<lambda>blob. ParseThrows),
            now_cached = 1700000000000,
            fetch = Response True (Text ''ClinicID,XRAY_AVA\<newline>c1,2 days\<newline>''),
            now_fetched = 1700000000500,
            JSON_stringify = (\<lambda>rows timestamp. ''{}''),
            setItem_returns = True\<rparr>
   = \<lparr>settled = Rejected SyntaxError, fetched = False, stored = None\<rparr>"
  by (simp add: getData_def)

text \<open>
  The boundary of the time to live, which is 300000 milliseconds. The promise resolves
  with the data and the timestamp of the stored blob, without a fetch and without a write,
  exactly when the store holds a blob that \<open>JSON.parse\<close> reads as a value with a numeric
  timestamp, and the clock minus the timestamp is less than 300000; the member \<open>data\<close> is
  handed back as it was read, \<open>undefined\<close> included. When such a blob is 300000
  milliseconds old or older, the feed is fetched.
\<close>

lemma getData_ttl:
  "cacheDuration = 300000
   \<and> ((\<exists>blob. getItem e = Item (Some blob) \<and> blob \<noteq> []
          \<and> JSON_parse e blob = ParsedValue d (Some t) \<and> now_cached e - t < 300000)
       \<longleftrightarrow> getData e = \<lparr>settled = Resolved d t, fetched = False, stored = None\<rparr>)
   \<and> (getItem e = Item (Some blob) \<and> JSON_parse e blob = ParsedValue d (Some t)
        \<and> 300000 \<le> now_cached e - t
       \<longrightarrow> getData e = fetchFresh e \<and> fetched (getData e))"
proof -
  have ttl: "cacheDuration = 300000"
    by (simp add: cacheDuration_def)
  have hit: "getData e = \<lparr>settled = Resolved d t, fetched = False, stored = None\<rparr>"
    if "getItem e = Item (Some blob)" "blob \<noteq> []" "JSON_parse e blob = ParsedValue d (Some t)"
      "now_cached e - t < 300000" for blob
    using that by (simp add: getData_def ttl)
  have only: "\<exists>blob. getItem e = Item (Some blob) \<and> blob \<noteq> []
          \<and> JSON_parse e blob = ParsedValue d (Some t) \<and> now_cached e - t < 300000"
    if res: "getData e = \<lparr>settled = Resolved d t, fetched = False, stored = None\<rparr>"
  proof -
    have "\<not> fetched (getData e)"
      using res by simp
    then have nf: "getData e \<noteq> fetchFresh e"
      using fetched_fetchFresh[of e] by auto
    obtain blob where item: "getItem e = Item (Some blob)" and ne: "blob \<noteq> []"
      using res nf by (cases "getItem e") (auto simp add: getData_def split: option.splits if_splits)
    obtain d' t' where parsed: "JSON_parse e blob = ParsedValue d' (Some t')"
      using res nf item ne
      by (cases "JSON_parse e blob") (auto simp add: getData_def split: option.splits)
    have fresh: "now_cached e - t' < 300000"
      using nf item ne parsed by (auto simp add: getData_def ttl split: if_splits)
    then have "getData e = \<lparr>settled = Resolved d' t', fetched = False, stored = None\<rparr>"
      using item ne parsed by (simp add: getData_def ttl)
    then have "d' = d" "t' = t"
      using res by auto
    then show ?thesis using item ne parsed fresh by auto
  qed
  have old: "getData e = fetchFresh e \<and> fetched (getData e)"
    if "getItem e = Item (Some blob)" "JSON_parse e blob = ParsedValue d (Some t)"
      "300000 \<le> now_cached e - t"
    using that fetched_fetchFresh[of e] by (simp add: getData_def ttl)
  show ?thesis using ttl hit only old by blast
qed

text \<open>
  A blob written at 1700000000000 is returned as it is 4 minutes 59 seconds later, with
  no fetch, and the feed is fetched 5 minutes 1 second later and at 5 minutes sharp.
\<close>

lemma getData_ttl_examples:
  "getData \<lparr>getItem = Item (Some ''blob''),
            JSON_parse = (\<lambda>blob. ParsedValue (Rows [[''ClinicID''], [''c1'']]) (Some 1700000000000)),
            now_cached = 1700000000000 + 299000,
            fetch = Response True (Text ''ClinicID\<newline>c2\<newline>''),
            now_fetched = 1700000000000 + 299500,
            JSON_stringify = (\<lambda>rows timestamp. ''fresh''),
            setItem_returns = True\<rparr>
     = \<lparr>settled = Resolved (Rows [[''ClinicID''], [''c1'']]) 1700000000000, fetched = False,
        stored = None\<rparr>
   \<and> fetched (getData \<lparr>getItem = Item (Some ''blob''),
            JSON_parse = (\<lambda>blob. ParsedValue (Rows [[''ClinicID''], [''c1'']]) (Some 1700000000000)),
            now_cached = 1700000000000 + 301000,
            fetch = Response True (Text ''ClinicID\<newline>c2\<newline>''),
            now_fetched = 1700000000000 + 301500,
            JSON_stringify = (\<lambda>rows timestamp. ''fresh''),
            setItem_returns = True\<rparr>)
   \<and> fetched (getData \<lparr>getItem = Item (Some ''blob''),
            JSON_parse = (\<lambda>blob. ParsedValue (Rows [[''ClinicID''], [''c1'']]) (Some 1700000000000)),
            now_cached = 1700000000000 + 300000,
            fetch = Response True (Text ''ClinicID\<newline>c2\<newline>''),
            now_fetched = 1700000000000 + 300500,
            JSON_stringify = (\<lambda>rows timestamp. ''fresh''),
            setItem_returns = True\<rparr>)"
proof -
  let ?e = "\<lambda>now. \<lparr>getItem = Item (Some ''blob''),
            JSON_parse = (\<lambda>blob. ParsedValue (Rows [[''ClinicID''], [''c1'']]) (Some 1700000000000)),
            now_cached = 1700000000000 + now,
            fetch = Response True (Text ''ClinicID\<newline>c2\<newline>''),
            now_fetched = 1700000000000 + now + 500,
            JSON_stringify = (\<lambda>rows timestamp. ''fresh''),
            setItem_returns = True\<rparr>"
  have a: "getData (?e 299000)
     = \<lparr>settled = Resolved (Rows [[''ClinicID''], [''c1'']]) 1700000000000, fetched = False,
        stored = None\<rparr>"
    using getData_ttl[of "?e 299000" "Rows [[''ClinicID''], [''c1'']]" 1700000000000 "''blob''"]
    by simp
  have b: "fetched (getData (?e 301000))"
  proof -
    have "getItem (?e 301000) = Item (Some ''blob'')
        \<and> JSON_parse (?e 301000) ''blob'' = ParsedValue (Rows [[''ClinicID''], [''c1'']]) (Some 1700000000000)
        \<and> 300000 \<le> now_cached (?e 301000) - 1700000000000"
      by simp
    then show ?thesis
      using getData_ttl[of "?e 301000" "Rows [[''ClinicID''], [''c1'']]" 1700000000000 "''blob''"]
      by blast
  qed
  have c: "fetched (getData (?e 300000))"
  proof -
    have "getItem (?e 300000) = Item (Some ''blob'')
        \<and> JSON_parse (?e 300000) ''blob'' = ParsedValue (Rows [[''ClinicID''], [''c1'']]) (Some 1700000000000)
        \<and> 300000 \<le> now_cached (?e 300000) - 1700000000000"
      by simp
    then show ?thesis
      using getData_ttl[of "?e 300000" "Rows [[''ClinicID''], [''c1'']]" 1700000000000 "''blob''"]
      by blast
  qed
  show ?thesis using a b c by simp
qed

text \<open>
  C2. The store holds the blob \<open>{"timestamp":1700000000000}\<close>, one second old, which
  is no well-formed envelope: it has a timestamp and no data. The feed is there to be
  fetched, and yet the promise resolves at once with \<open>undefined\<close> for the data and the
  stored timestamp, and no fetch is made: the fast path is taken for a blob that is not a
  well-formed envelope.
\<close>

theorem getData_envelope_without_data:
  \<open>getData \<lparr>getItem = Item (Some ''{"timestamp":1700000000000}''),
            JSON_parse = (\<lambda>blob. ParsedValue Undefined (Some 1700000000000)),
            now_cached = 1700000001000,
            fetch = Response True (Text ''ClinicID,XRAY_AVA\<newline>c1,2 days\<newline>''),
            now_fetched = 1700000001500,
            JSON_stringify = (\<lambda>rows timestamp. ''{}''),
            setItem_returns = True\<rparr>
   = \<lparr>settled = Resolved Undefined 1700000000000, fetched = False, stored = None\<rparr>\<close>
  by (simp add: getData_def cacheDuration_def)

text \<open>
  C3. When the feed was fetched with success and \<open>setItem\<close> throws, the promise still
  resolves with the rows tokenized from the fetched text and the clock read after the
  fetch; nothing is stored. Whether \<open>setItem\<close> returns or throws never changes how the
  promise settles.
\<close>

theorem getData_write_failure:
  "(fetched (getData e) \<and> fetch e = Response True (Text csvText) \<and> \<not> setItem_returns e
      \<longrightarrow> getData e = \<lparr>settled = Resolved (Rows (parseCSV csvText)) (now_fetched e),
                       fetched = True, stored = None\<rparr>)
   \<and> settled (getData (e\<lparr>setItem_returns := False\<rparr>))
     = settled (getData (e\<lparr>setItem_returns := True\<rparr>))
   \<and> fetched (getData (e\<lparr>setItem_returns := False\<rparr>))
     = fetched (getData (e\<lparr>setItem_returns := True\<rparr>))"
proof -
  have fresh: "fetchFresh e = \<lparr>settled = Resolved (Rows (parseCSV csvText)) (now_fetched e),
                       fetched = True, stored = None\<rparr>"
    if "fetch e = Response True (Text csvText)" "\<not> setItem_returns e"
    using that by (simp add: fetchFresh_def)
  have path: "getData e = fetchFresh e" if "fetched (getData e)"
    using that
    by (auto simp add: getData_def Let_def
        split: item.splits option.splits parsed.splits if_splits)
  have 1: "getData e = \<lparr>settled = Resolved (Rows (parseCSV csvText)) (now_fetched e),
                       fetched = True, stored = None\<rparr>"
    if "fetched (getData e)" "fetch e = Response True (Text csvText)" "\<not> setItem_returns e"
    using path[OF that(1)] fresh[OF that(2,3)] by simp
  have ff: "settled (fetchFresh (e\<lparr>setItem_returns := False\<rparr>))
            = settled (fetchFresh (e\<lparr>setItem_returns := True\<rparr>))
          \<and> fetched (fetchFresh (e\<lparr>setItem_returns := False\<rparr>))
            = fetched (fetchFresh (e\<lparr>setItem_returns := True\<rparr>))"
    by (simp add: fetchFresh_def Let_def split: response.splits body.splits)
  have 2: "settled (getData (e\<lparr>setItem_returns := False\<rparr>))
            = settled (getData (e\<lparr>setItem_returns := True\<rparr>))
          \<and> fetched (getData (e\<lparr>setItem_returns := False\<rparr>))
            = fetched (getData (e\<lparr>setItem_returns := True\<rparr>))"
    using ff
    by (simp add: getData_def Let_def
        split: item.splits option.splits parsed.splits)
  show ?thesis using 1 2 by blast
qed

text \<open>
  The store is empty, the feed is fetched and \<open>setItem\<close> throws: the caller gets the
  two rows of the feed.
\<close>

theorem getData_write_failure_witness:
  "getData \<lparr>getItem = Item None,
            JSON_parse = (\<lambda>blob. ParseThrows),
            now_cached = 1700000000000,
            fetch = Response True (Text ''ClinicID,XRAY_AVA\<newline>c1,2 days\<newline>''),
            now_fetched = 1700000000500,
            JSON_stringify = (\<lambda>rows timestamp. ''{}''),
            setItem_returns = False\<rparr>
   = \<lparr>settled = Resolved (Rows [[''ClinicID'', ''XRAY_AVA''], [''c1'', ''2 days'']]) 1700000000500,
      fetched = True, stored = None\<rparr>"
proof -
  let ?e = "\<lparr>getItem = Item None,
            JSON_parse = (\<lambda>blob. ParseThrows),
            now_cached = 1700000000000,
            fetch = Response True (Text ''ClinicID,XRAY_AVA\<newline>c1,2 days\<newline>''),
            now_fetched = 1700000000500,
            JSON_stringify = (\<lambda>rows timestamp. ''{}''),
            setItem_returns = False\<rparr>"
  have f: "fetched (getData ?e)"
    by (simp add: getData_def fetched_fetchFresh)
  have p: "parseCSV ''ClinicID,XRAY_AVA\<newline>c1,2 days\<newline>''
           = [[''ClinicID'', ''XRAY_AVA''], [''c1'', ''2 days'']]"
    by (simp add: parseCSV_def start_def finish_def endRow_def iteration_def scan.simps(2))
  show ?thesis
    using getData_write_failure[of ?e "''ClinicID,XRAY_AVA\<newline>c1,2 days\<newline>''"] f p
    by simp
qed

end
